theory Spec2Isabelle
  imports Complex_Main "HOL-Library.Sublist"
begin

section \<open>Python strings\<close>

text \<open>
  A Python \<^verbatim>\<open>str\<close> is a sequence of Unicode code points, and \<^verbatim>\<open>len\<close>,
  slicing, \<^verbatim>\<open>rfind\<close> and \<^verbatim>\<open>replace\<close> all count code points. A string is therefore a
  list of code points (natural numbers); \<open>ascii\<close> turns an ASCII literal into one.
\<close>

type_synonym codepoint = nat
type_synonym pystr = "codepoint list"

definition ascii :: "string \<Rightarrow> pystr" where
  "ascii s = map of_char s"

text \<open>
  The characters that \<^verbatim>\<open>str.strip()\<close> and \<^verbatim>\<open>str.split()\<close> (both without argument)
  treat as whitespace: U+0009..U+000D, U+001C..U+0020, U+0085, U+00A0, U+1680,
  U+2000..U+200A, U+2028, U+2029, U+202F, U+205F and U+3000.
\<close>

definition is_space :: "codepoint \<Rightarrow> bool" where
  "is_space c \<longleftrightarrow>
     (9 \<le> c \<and> c \<le> 13) \<or> (28 \<le> c \<and> c \<le> 32) \<or> c = 133 \<or> c = 160 \<or> c = 5760 \<or>
     (8192 \<le> c \<and> c \<le> 8202) \<or> c = 8232 \<or> c = 8233 \<or> c = 8239 \<or> c = 8287 \<or>
     c = 12288"

text \<open>\<^verbatim>\<open>s.strip()\<close>: whitespace removed at both ends.\<close>

definition strip :: "pystr \<Rightarrow> pystr" where
  "strip s = rev (dropWhile is_space (rev (dropWhile is_space s)))"

text \<open>\<^verbatim>\<open>s.split()\<close>: the maximal runs of non-whitespace characters, in order.\<close>

function split :: "pystr \<Rightarrow> pystr list" where
  "split s =
     (case dropWhile is_space s of
        [] \<Rightarrow> []
      | c # cs \<Rightarrow>
          takeWhile (\<lambda>x. \<not> is_space x) (c # cs) # split (dropWhile (\<lambda>x. \<not> is_space x) (c # cs)))"
  by pat_completeness auto
termination
proof (relation "measure length")
  show "wf (measure length)" by simp
next
  fix s :: pystr and c cs
  assume d: "dropWhile is_space s = c # cs"
  have "length (dropWhile (\<lambda>x. \<not> is_space x) (c # cs)) < length (c # cs)"
  proof (cases "is_space c")
    case True
    with d have "is_space (hd (dropWhile is_space s))" by simp
    moreover from d have "dropWhile is_space s \<noteq> []" by simp
    ultimately show ?thesis using hd_dropWhile [of is_space s] by simp
  next
    case False
    have "length (dropWhile (\<lambda>x. \<not> is_space x) cs) \<le> length cs"
      by (rule length_dropWhile_le)
    with False show ?thesis by simp
  qed
  also have "length (c # cs) \<le> length s"
    using length_dropWhile_le [of is_space s] d by simp
  finally show "(dropWhile (\<lambda>x. \<not> is_space x) (c # cs), s) \<in> measure length" by simp
qed

declare split.simps [simp del]

text \<open>
  \<^verbatim>\<open>s[:n]\<close>: the first \<open>n\<close> characters for \<open>n \<ge> 0\<close>; for a negative \<open>n\<close> all but the
  last \<open>-n\<close> characters (nothing when the string is shorter than that).
\<close>

definition slice_to :: "'a list \<Rightarrow> int \<Rightarrow> 'a list" where
  "slice_to s n = (if 0 \<le> n then take (nat n) s else take (nat (int (length s) + n)) s)"

text \<open>
  \<^verbatim>\<open>s.rfind(sub)\<close>: the highest index at which \<open>sub\<close> occurs in \<open>s\<close>, and \<open>-1\<close>
  when it does not occur.
\<close>

definition rfind :: "'a list \<Rightarrow> 'a list \<Rightarrow> int" where
  "rfind s sub =
     (case filter (\<lambda>i. prefix sub (drop i s)) (rev [0..<Suc (length s)]) of
        [] \<Rightarrow> - 1
      | i # _ \<Rightarrow> int i)"

section \<open>Exceptions, logging and external calls\<close>

text \<open>
  The exceptions the code raises or catches, all subclasses of \<^verbatim>\<open>Exception\<close>;
  each carries its message, and \<open>RuntimeError\<close> its cause (\<^verbatim>\<open>raise ... from e\<close>).
\<close>

datatype exn =
    ValueError pystr
  | RuntimeError pystr exn
  | APIError pystr
  | IndexError pystr
  | ZeroDivisionError pystr
  | OtherException pystr

fun exn_str :: "exn \<Rightarrow> pystr" where
  "exn_str (ValueError m) = m"
| "exn_str (RuntimeError m _) = m"
| "exn_str (APIError m) = m"
| "exn_str (IndexError m) = m"
| "exn_str (ZeroDivisionError m) = m"
| "exn_str (OtherException m) = m"

datatype level = INFO | WARNING | ERROR

text \<open>
  A log record is the level, the text of the f-string as the source has it, and the
  values of its fields in order.
\<close>

type_synonym bytes = "char list"

text \<open>
  An in-memory binary file (\<^verbatim>\<open>io.BytesIO\<close>, and Streamlit's uploaded file, which is
  one): its content, its name and its read cursor.
\<close>

record BytesIO =
  getvalue :: bytes
  name :: pystr
  tell :: nat

datatype arg = AInt int | AReal real | AStr pystr | AExn exn | AFile BytesIO

text \<open>
  Everything the code does beyond returning a value is an event of a trace: a log
  record, a request to the summarization service (model, output-token cap, temperature,
  prompt), a request to the synthesis service (voice, output format, text, model), each
  of the two PDF parsers reading the uploaded file, a \<^verbatim>\<open>seek\<close> on it, a call of the
  Streamlit user interface (the name of the call and its arguments), and the download
  button (label, data, file name, MIME type).
\<close>

datatype event =
    Logged level pystr "arg list"
  | MessagesCreate pystr int real pystr
  | TextToSpeechConvert pystr pystr pystr pystr
  | PdfplumberOpen BytesIO
  | Seek nat
  | PdfReader BytesIO
  | St pystr "arg list"
  | DownloadButton pystr BytesIO pystr pystr

section \<open>utils/claude\_client.py\<close>

record ClaudeProcessor =
  model :: pystr
  max_input_tokens :: int
  target_output_tokens :: int

definition ClaudeProcessor_init :: "pystr \<Rightarrow> pystr \<Rightarrow> (exn + ClaudeProcessor) \<times> event list" where
  "ClaudeProcessor_init api_key mdl =
     (if api_key = [] \<or> api_key = ascii ''your_anthropic_api_key_here''
      then (Inl (ValueError (ascii ''Valid Anthropic API key required'')), [])
      else (Inr \<lparr>model = mdl, max_input_tokens = 100000, target_output_tokens = 2000\<rparr>,
            [Logged INFO (ascii ''Claude client initialized with model: {model}'') [AStr mdl]]))"

definition estimate_tokens :: "pystr \<Rightarrow> int" where
  "estimate_tokens text = int (length text) div 4"

text \<open>
  The comparison \<^verbatim>\<open>last_paragraph > char_limit * 0.8\<close> is between an integer and a
  float; it is modelled over the reals. For the configured limit the product is the
  integer 316800, which the float represents exactly.
\<close>

definition truncate_pdf_content :: "ClaudeProcessor \<Rightarrow> pystr \<Rightarrow> pystr \<times> event list" where
  "truncate_pdf_content self pdf_text =
     (let estimated_tokens = estimate_tokens pdf_text;
          available_tokens = max_input_tokens self - 1000
      in if estimated_tokens \<le> available_tokens then (pdf_text, [])
         else
           let char_limit = available_tokens * 4;
               truncated = slice_to pdf_text char_limit;
               last_paragraph = rfind truncated [10, 10];
               truncated' =
                 (if real_of_int last_paragraph > real_of_int char_limit * 0.8
                  then slice_to truncated last_paragraph else truncated)
           in (truncated',
               [Logged WARNING
                  (ascii ''PDF content ({estimated_tokens} tokens) exceeds limit. Truncating.'')
                  [AInt estimated_tokens],
                Logged INFO (ascii ''Truncated to {len(truncated)} characters'')
                  [AInt (int (length truncated'))]]))"

text \<open>\<^verbatim>\<open>str(n)\<close> for an integer, as an f-string field renders it.\<close>

function str_nat :: "nat \<Rightarrow> pystr" where
  "str_nat n = (if n < 10 then [48 + n] else str_nat (n div 10) @ [48 + n mod 10])"
  by pat_completeness auto
termination
  by (relation "measure id") auto

declare str_nat.simps [simp del]

definition str_int :: "int \<Rightarrow> pystr" where
  "str_int i = (if i < 0 then 45 # str_nat (nat (- i)) else str_nat (nat i))"

definition create_summary_prompt :: "pystr \<Rightarrow> int \<Rightarrow> pystr" where
  \<open>create_summary_prompt pdf_text target_minutes =
     (let target_words = target_minutes * 150
      in
        ascii ''You are an expert scientific communicator tasked with creating audio-ready summaries of research papers.\<newline>'' @
        ascii ''\<newline>'' @
        ascii ''TASK: Create a '' @
        str_int target_minutes @
        ascii ''-minute spoken summary (approximately '' @
        str_int target_words @
        ascii '' words) of the following scientific paper.\<newline>'' @
        ascii ''\<newline>'' @
        ascii ''REQUIREMENTS:\<newline>'' @
        ascii ''1. **Audio-First Design**: Write for listening, not reading\<newline>'' @
        ascii ''   - Use clear, conversational language\<newline>'' @
        ascii ''   - Include natural transitions between sections\<newline>'' @
        ascii ''   - Avoid complex jargon without explanation\<newline>'' @
        ascii ''\<newline>'' @
        ascii ''2. **Structure for Audio**:\<newline>'' @
        ascii ''   - Start with a compelling hook about the research significance\<newline>'' @
        ascii ''   - Provide clear section transitions ("Now, let's examine the methodology...")\<newline>'' @
        ascii ''   - End with practical implications and future directions\<newline>'' @
        ascii ''\<newline>'' @
        ascii ''3. **Scientific Accuracy**:\<newline>'' @
        ascii ''   - Preserve key technical details and findings\<newline>'' @
        ascii ''   - Explain methodology in accessible terms\<newline>'' @
        ascii ''   - Include specific numbers and results where important\<newline>'' @
        ascii ''\<newline>'' @
        ascii ''4. **Target Length**: Exactly '' @
        str_int target_words @
        ascii '' words ('' @
        [194, 177] @
        ascii ''50 words)\<newline>'' @
        ascii ''\<newline>'' @
        ascii ''PAPER CONTENT:\<newline>'' @
        pdf_text @
        ascii ''\<newline>'' @
        ascii ''\<newline>'' @
        ascii ''OUTPUT FORMAT:\<newline>'' @
        ascii ''Provide only the summary text, ready for text-to-speech conversion. No headers, bullet points, or formatting - just flowing, natural speech.'')\<close>

text \<open>
  The summarization service is a parameter: given the model, the output-token cap, the
  temperature and the prompt of \<^verbatim>\<open>messages.create\<close>, it raises or returns a message,
  which is the list of the texts of its content blocks.
\<close>

type_synonym message = "pystr list"
type_synonym messages_client = "pystr \<Rightarrow> int \<Rightarrow> real \<Rightarrow> pystr \<Rightarrow> exn + message"

definition make_sync_api_call ::
  "ClaudeProcessor \<Rightarrow> messages_client \<Rightarrow> pystr \<Rightarrow> (exn + message) \<times> event list" where
  "make_sync_api_call self client prompt =
     (client (model self) (target_output_tokens self) 0.1 prompt,
      [MessagesCreate (model self) (target_output_tokens self) 0.1 prompt])"

text \<open>
  What \<^verbatim>\<open>generate_summary\<close> does with the response, inside its \<^verbatim>\<open>try\<close>:
  \<^verbatim>\<open>response.content[0]\<close> raises \<^verbatim>\<open>IndexError\<close> on an empty content list. The two
  thresholds \<^verbatim>\<open>target_words * 0.7\<close> and \<^verbatim>\<open>target_words * 1.3\<close> are read over the reals;
  for three minutes the float products are exactly 315 and 585.
\<close>

definition check_summary :: "message \<Rightarrow> int \<Rightarrow> (exn + pystr) \<times> event list" where
  "check_summary response target_minutes =
     (case response of
        [] \<Rightarrow> (Inl (IndexError (ascii ''list index out of range'')), [])
      | block # _ \<Rightarrow>
          let summary = strip block;
              word_count = int (length (split summary));
              target_words = target_minutes * 150
          in (Inr summary,
              Logged INFO (ascii ''Generated summary: {word_count} words (target: {target_words})'')
                [AInt word_count, AInt target_words] #
              (if real_of_int word_count < real_of_int target_words * 0.7
               then [Logged WARNING (ascii ''Summary significantly shorter than target'') []]
               else if real_of_int word_count > real_of_int target_words * 1.3
               then [Logged WARNING (ascii ''Summary significantly longer than target'') []]
               else [])))"

text \<open>The two \<^verbatim>\<open>except\<close> clauses: each logs and raises the exception again.\<close>

definition summary_error :: "exn \<Rightarrow> event list" where
  "summary_error e =
     (case e of
        APIError _ \<Rightarrow> [Logged ERROR (ascii ''Claude API error: {e}'') [AExn e]]
      | _ \<Rightarrow> [Logged ERROR (ascii ''Unexpected error in summary generation: {e}'') [AExn e]])"

definition generate_summary ::
  "ClaudeProcessor \<Rightarrow> messages_client \<Rightarrow> pystr \<Rightarrow> int \<Rightarrow> (exn + pystr) \<times> event list" where
  "generate_summary self client pdf_text target_minutes =
     (if strip pdf_text = [] then (Inl (ValueError (ascii ''PDF content cannot be empty'')), [])
      else
        let (processed_content, ev1) = truncate_pdf_content self pdf_text;
            prompt = create_summary_prompt processed_content target_minutes;
            ev2 = [Logged INFO
                     (ascii ''Generating summary for {len(processed_content)} characters of content'')
                     [AInt (int (length processed_content))]];
            (response, ev3) = make_sync_api_call self client prompt
        in case response of
             Inl e \<Rightarrow> (Inl e, ev1 @ ev2 @ ev3 @ summary_error e)
           | Inr msg \<Rightarrow>
               (case check_summary msg target_minutes of
                  (Inl e, ev4) \<Rightarrow> (Inl e, ev1 @ ev2 @ ev3 @ ev4 @ summary_error e)
                | (Inr summary, ev4) \<Rightarrow> (Inr summary, ev1 @ ev2 @ ev3 @ ev4)))"

section \<open>utils/elevenlabs\_client.py\<close>

record ElevenLabsProcessor =
  voice_id :: pystr
  model_id :: pystr
  output_format :: pystr

text \<open>
  The constructor; its callers may leave out \<open>voice\<close> (default
  \<^verbatim>\<open>vBaThRCUhBj6DkxqB593\<close>) and \<open>mdl\<close> (default \<^verbatim>\<open>eleven_multilingual_v2\<close>).
\<close>

definition ElevenLabsProcessor_init ::
  "pystr \<Rightarrow> pystr \<Rightarrow> pystr \<Rightarrow> (exn + ElevenLabsProcessor) \<times> event list" where
  "ElevenLabsProcessor_init api_key voice mdl =
     (if api_key = [] \<or> api_key = ascii ''your_elevenlabs_api_key_here''
      then (Inl (ValueError (ascii ''Valid ElevenLabs API key required'')), [])
      else (Inr \<lparr>voice_id = voice, model_id = mdl, output_format = ascii ''mp3_44100_128''\<rparr>,
            [Logged INFO (ascii ''ElevenLabs client initialized with voice: {voice_id}'')
               [AStr voice]]))"

text \<open>
  \<^verbatim>\<open>word_count / words_per_minute\<close> is Python's true division, which raises
  \<^verbatim>\<open>ZeroDivisionError\<close> on a zero divisor; the quotient is modelled as a real number.
\<close>

definition estimate_audio_duration :: "pystr \<Rightarrow> int \<Rightarrow> (exn + real) \<times> event list" where
  "estimate_audio_duration text words_per_minute =
     (let word_count = int (length (split text))
      in if words_per_minute = 0
         then (Inl (ZeroDivisionError (ascii ''division by zero'')), [])
         else
           let duration_minutes = real_of_int word_count / real_of_int words_per_minute
           in (Inr duration_minutes,
               [Logged INFO
                  (ascii ''Estimated audio duration: {duration_minutes:.1f} minutes for {word_count} words'')
                  [AReal duration_minutes, AInt word_count]]))"

text \<open>
  \<^verbatim>\<open>last_sentence > max_chars * 0.8\<close> is read over the reals as well; for the default
  limit of 5000 the product is the integer 4000.
\<close>

definition validate_text_length :: "pystr \<Rightarrow> int \<Rightarrow> (exn + pystr) \<times> event list" where
  "validate_text_length text max_chars =
     (if strip text = [] then (Inl (ValueError (ascii ''Text cannot be empty'')), [])
      else if int (length text) \<le> max_chars then (Inr text, [])
      else
        let truncated = slice_to text max_chars;
            last_sentence = rfind truncated [46];
            truncated' =
              (if real_of_int last_sentence > real_of_int max_chars * 0.8
               then slice_to truncated (last_sentence + 1) else truncated)
        in (Inr truncated',
            [Logged WARNING
               (ascii ''Text length ({len(text)}) exceeds limit. Truncating to {max_chars} chars.'')
               [AInt (int (length text)), AInt max_chars]]))"

text \<open>
  The synthesis service is a parameter: given voice, output format, text and model of
  \<^verbatim>\<open>text_to_speech.convert\<close>, it raises, returns bytes, or returns an iterator; that
  one yields chunks and may raise while it is consumed.
\<close>

datatype audio = Bytes bytes | Iterator "(exn + bytes) list"

type_synonym tts_client = "pystr \<Rightarrow> pystr \<Rightarrow> pystr \<Rightarrow> pystr \<Rightarrow> exn + audio"

text \<open>\<^verbatim>\<open>b''.join(audio)\<close>: the chunks in the order received.\<close>

fun join :: "(exn + bytes) list \<Rightarrow> exn + bytes" where
  "join [] = Inr []"
| "join (Inl e # _) = Inl e"
| "join (Inr chunk # rest) = (case join rest of Inl e \<Rightarrow> Inl e | Inr bs \<Rightarrow> Inr (chunk @ bs))"

definition generate_sync ::
  "ElevenLabsProcessor \<Rightarrow> tts_client \<Rightarrow> pystr \<Rightarrow> (exn + bytes) \<times> event list" where
  "generate_sync self client text =
     (let call = TextToSpeechConvert (voice_id self) (output_format self) text (model_id self);
          failed = (\<lambda>e. (Inl e, [call, Logged ERROR (ascii ''ElevenLabs API call failed: {e}'') [AExn e]]))
      in case client (voice_id self) (output_format self) text (model_id self) of
           Inl e \<Rightarrow> failed e
         | Inr (Bytes audio_bytes) \<Rightarrow> (Inr audio_bytes, [call])
         | Inr (Iterator chunks) \<Rightarrow>
             (case join chunks of
                Inl e \<Rightarrow> failed e
              | Inr audio_bytes \<Rightarrow> (Inr audio_bytes, [call])))"

definition generate_audio ::
  "ElevenLabsProcessor \<Rightarrow> tts_client \<Rightarrow> pystr \<Rightarrow> (exn + bytes) \<times> event list" where
  "generate_audio self client text =
     (case validate_text_length text 5000 of
        (Inl e, ev1) \<Rightarrow> (Inl e, ev1)
      | (Inr processed_text, ev1) \<Rightarrow>
          (case estimate_audio_duration processed_text 150 of
             (Inl e, ev2) \<Rightarrow> (Inl e, ev1 @ ev2)
           | (Inr duration_estimate, ev2) \<Rightarrow>
               (let ev3 = [Logged INFO (ascii ''Generating audio for {len(processed_text)} characters'')
                             [AInt (int (length processed_text))]]
                in (case generate_sync self client processed_text of
                      (Inl e, ev4) \<Rightarrow>
                        (Inl (RuntimeError (ascii ''Failed to generate audio: '' @ exn_str e) e),
                         ev1 @ ev2 @ ev3 @ ev4 @
                         [Logged ERROR (ascii ''Audio generation failed: {e}'') [AExn e]])
                    | (Inr audio_data, ev4) \<Rightarrow>
                        (Inr audio_data,
                         ev1 @ ev2 @ ev3 @ ev4 @
                         [Logged INFO
                            (ascii ''Audio generation successful. Size: {len(audio_data)} bytes'')
                            [AInt (int (length audio_data))]])))))"

definition create_audio_file :: "bytes \<Rightarrow> pystr \<Rightarrow> BytesIO \<times> event list" where
  "create_audio_file audio_data filename =
     (\<lparr>getvalue = audio_data, name = filename, tell = 0\<rparr>,
      [Logged INFO (ascii ''Created audio file buffer: {filename}'') [AStr filename]])"

definition text_to_audio_file ::
  "ElevenLabsProcessor \<Rightarrow> tts_client \<Rightarrow> pystr \<Rightarrow> pystr \<Rightarrow> (exn + BytesIO) \<times> event list" where
  "text_to_audio_file self client text filename =
     (let ev0 = [Logged INFO (ascii ''Starting text-to-audio pipeline'') []]
      in case generate_audio self client text of
           (Inl e, ev1) \<Rightarrow>
             (Inl e, ev0 @ ev1 @ [Logged ERROR (ascii ''Text-to-audio pipeline failed: {e}'') [AExn e]])
         | (Inr audio_data, ev1) \<Rightarrow>
             let (audio_file, ev2) = create_audio_file audio_data filename
             in (Inr audio_file,
                 ev0 @ ev1 @ ev2 @
                 [Logged INFO (ascii ''Text-to-audio pipeline completed successfully'') []]))"

text \<open>
  The connectivity check. Its whole body is inside \<^verbatim>\<open>try ... except Exception\<close>, and the
  handler returns \<^verbatim>\<open>False\<close>.
\<close>

definition test_connection ::
  "ElevenLabsProcessor \<Rightarrow> tts_client \<Rightarrow> (exn + bool) \<times> event list" where
  "test_connection self client =
     (case generate_audio self client (ascii ''Testing connection.'') of
        (Inr test_audio, ev) \<Rightarrow> (Inr (length test_audio > 0), ev)
      | (Inl e, ev) \<Rightarrow>
          (Inr False, ev @ [Logged ERROR (ascii ''Connection test failed: {e}'') [AExn e]]))"

section \<open>streamlit\_app.py\<close>

text \<open>
  \<^verbatim>\<open>s.replace(old, new)\<close>: every occurrence of \<open>old\<close>, found from left to right without
  overlap, becomes \<open>new\<close>; an empty \<open>old\<close> matches before every character and at the
  end.
\<close>

function replace :: "'a list \<Rightarrow> 'a list \<Rightarrow> 'a list \<Rightarrow> 'a list" where
  "replace s old new =
     (if old = [] then new @ concat (map (\<lambda>c. c # new) s)
      else if s = [] then []
      else if prefix old s then new @ replace (drop (length old) s) old new
      else hd s # replace (tl s) old new)"
  by pat_completeness auto
termination
  by (relation "measure (\<lambda>(s, old, new). length s)") auto

declare replace.simps [simp del]

text \<open>
  The file name that \<^verbatim>\<open>process_pdf_to_audio\<close> passes to \<^verbatim>\<open>text_to_audio_file\<close>:
  \<^verbatim>\<open>f"{uploaded_file.name.replace('.pdf', '')}_summary.mp3"\<close>.
\<close>

definition summary_filename :: "pystr \<Rightarrow> pystr" where
  "summary_filename uploaded_name = replace uploaded_name (ascii ''.pdf'') [] @ ascii ''_summary.mp3''"

text \<open>
  A PDF parser is a parameter: reading the uploaded file, it raises or returns the pages,
  and leaves the read cursor somewhere. \<^verbatim>\<open>page.extract_text()\<close> raises, or returns
  \<^verbatim>\<open>None\<close> or a string.
\<close>

type_synonym page = "exn + pystr option"
type_synonym pdf_parser = "BytesIO \<Rightarrow> (exn + page list) \<times> nat"

text \<open>The loop over the pages: \<^verbatim>\<open>if page_text: text += page_text + "\n\n"\<close>.\<close>

fun extract_pages :: "page list \<Rightarrow> pystr \<Rightarrow> exn + pystr" where
  "extract_pages [] text = Inr text"
| "extract_pages (Inl e # _) text = Inl e"
| "extract_pages (Inr None # pages) text = extract_pages pages text"
| "extract_pages (Inr (Some page_text) # pages) text =
     extract_pages pages (if page_text = [] then text else text @ page_text @ [10, 10])"

definition pages_text :: "exn + page list \<Rightarrow> exn + pystr" where
  "pages_text doc = (case doc of Inl e \<Rightarrow> Inl e | Inr pages \<Rightarrow> extract_pages pages [])"

text \<open>
  The second \<^verbatim>\<open>try\<close> block of \<^verbatim>\<open>extract_pdf_text\<close> and what follows it: the cursor is
  set back to the start, PyPDF2 reads the file, and when that yields no text either the
  user is shown an error.
\<close>

definition extract_with_pypdf2 :: "pdf_parser \<Rightarrow> BytesIO \<Rightarrow> pystr option \<times> event list" where
  "extract_with_pypdf2 pdf_reader uploaded_file =
     (let f2 = uploaded_file\<lparr>tell := 0\<rparr>;
          (doc2, pos2) = pdf_reader f2;
          ev = [Seek 0, PdfReader f2];
          st_error = St (ascii ''st.error'') [AStr ([10060] @ ascii '' Failed to extract text from PDF. Please ensure it's a text-based PDF.'')]
      in (case pages_text doc2 of
            Inl e \<Rightarrow>
              (None,
               ev @ [Logged ERROR (ascii ''PyPDF2 extraction failed: {e}'') [AExn e], st_error])
          | Inr text \<Rightarrow>
              (if strip text \<noteq> []
               then (Some (strip text),
                     ev @ [Logged INFO (ascii ''Extracted {len(text)} characters using PyPDF2'')
                             [AInt (int (length text))]])
               else (None, ev @ [st_error]))))"

definition extract_pdf_text ::
  "pdf_parser \<Rightarrow> pdf_parser \<Rightarrow> BytesIO option \<Rightarrow> pystr option \<times> event list" where
  "extract_pdf_text pdfplumber_open pdf_reader uploaded_file =
     (case uploaded_file of
        None \<Rightarrow> (None, [])
      | Some f \<Rightarrow>
          (let (doc1, pos1) = pdfplumber_open f;
               f1 = f\<lparr>tell := pos1\<rparr>
           in (case pages_text doc1 of
                 Inl e \<Rightarrow>
                   (let (result, ev) = extract_with_pypdf2 pdf_reader f1
                    in (result,
                        [PdfplumberOpen f,
                         Logged WARNING (ascii ''pdfplumber extraction failed: {e}'') [AExn e]] @ ev))
               | Inr text \<Rightarrow>
                   (if strip text \<noteq> []
                    then (Some (strip text),
                          [PdfplumberOpen f,
                           Logged INFO (ascii ''Extracted {len(text)} characters using pdfplumber'')
                             [AInt (int (length text))]])
                    else (let (result, ev) = extract_with_pypdf2 pdf_reader f1
                          in (result, PdfplumberOpen f # ev))))))"

text \<open>
  The pipeline. The two API clients are those of the application object and
  \<open>target_minutes\<close> is \<^verbatim>\<open>config['target_minutes']\<close>. The handler of
  \<^verbatim>\<open>except Exception\<close> and the \<^verbatim>\<open>finally\<close> block come first.
\<close>

definition processing_failed :: "exn \<Rightarrow> event list" where
  "processing_failed e =
     [St (ascii ''st.error'') [AStr ([10060] @ ascii '' Processing failed: {str(e)}''), AStr (exn_str e)],
      Logged ERROR (ascii ''Processing pipeline error: {e}'') [AExn e]]"

definition clean_up :: "event list" where
  "clean_up = [St (ascii ''progress_bar.empty'') [], St (ascii ''status_text.empty'') []]"

definition process_pdf_to_audio ::
  "ClaudeProcessor \<Rightarrow> messages_client \<Rightarrow> ElevenLabsProcessor \<Rightarrow> tts_client \<Rightarrow>
   pdf_parser \<Rightarrow> pdf_parser \<Rightarrow> BytesIO \<Rightarrow> int \<Rightarrow> event list" where
  "process_pdf_to_audio claude_client messages elevenlabs_client tts pdfplumber_open pdf_reader
     uploaded_file target_minutes =
     (let ev0 = [St (ascii ''st.progress'') [AInt 0], St (ascii ''st.empty'') [],
                 St (ascii ''status_text.text'') [AStr ([128196] @ ascii '' Extracting text from PDF...'')],
                 St (ascii ''progress_bar.progress'') [AInt 20]];
          (extracted, ev1) = extract_pdf_text pdfplumber_open pdf_reader (Some uploaded_file);
          pdf_text = (case extracted of None \<Rightarrow> [] | Some t \<Rightarrow> t)
      in if pdf_text = []
         then ev0 @ ev1 @ [St (ascii ''st.error'') [AStr ([10060] @ ascii '' Failed to extract text from PDF'')]] @ clean_up
         else
           (let ev2 = [St (ascii ''st.info'')
                         [AStr ([128202] @ ascii '' Extracted {word_count:,} words from PDF''), AInt (int (length (split pdf_text)))],
                       St (ascii ''status_text.text'') [AStr ([129302] @ ascii '' Generating summary with Claude AI...'')],
                       St (ascii ''progress_bar.progress'') [AInt 40]]
            in (case generate_summary claude_client messages pdf_text target_minutes of
                  (Inl e, ev3) \<Rightarrow> ev0 @ ev1 @ ev2 @ ev3 @ processing_failed e @ clean_up
                | (Inr summary, ev3) \<Rightarrow>
                    (let ev4 = [St (ascii ''st.success'')
                                  [AStr ([9989] @ ascii '' Summary generated ({summary_words} words)''), AInt (int (length (split summary)))],
                                St (ascii ''st.expander'') [AStr ([128221] @ ascii '' Preview Summary'')],
                                St (ascii ''st.write'') [AStr summary],
                                St (ascii ''status_text.text'') [AStr ([127925] @ ascii '' Converting to audio with ElevenLabs...'')],
                                St (ascii ''progress_bar.progress'') [AInt 70]]
                     in (case text_to_audio_file elevenlabs_client tts summary
                                (summary_filename (name uploaded_file)) of
                           (Inl e, ev5) \<Rightarrow>
                             ev0 @ ev1 @ ev2 @ ev3 @ ev4 @ ev5 @ processing_failed e @ clean_up
                         | (Inr audio_file, ev5) \<Rightarrow>
                             (let ev6 = [St (ascii ''status_text.text'') [AStr ([9989] @ ascii '' Processing complete!'')],
                                         St (ascii ''progress_bar.progress'') [AInt 100],
                                         St (ascii ''st.success'') [AStr ([127881] @ ascii '' Audio summary ready!'')],
                                         St (ascii ''st.audio'') [AFile audio_file, AStr (ascii ''audio/mp3'')],
                                         DownloadButton ([11015, 65039] @ ascii '' Download MP3'') audio_file (name audio_file)
                                           (ascii ''audio/mp3'')]
                              in (case estimate_audio_duration summary 150 of
                                    (Inl e, ev7) \<Rightarrow>
                                      ev0 @ ev1 @ ev2 @ ev3 @ ev4 @ ev5 @ ev6 @ ev7 @
                                      processing_failed e @ clean_up
                                  | (Inr estimated_duration, ev7) \<Rightarrow>
                                      ev0 @ ev1 @ ev2 @ ev3 @ ev4 @ ev5 @ ev6 @ ev7 @
                                      [St (ascii ''st.info'')
                                         [AStr ([127911] @ ascii '' Audio duration: ~{estimated_duration:.1f} minutes''), AReal estimated_duration]] @
                                      clean_up)))))))"

section \<open>Properties of the string operations\<close>

lemma all_dropWhile_iff: "(\<forall>c \<in> set (dropWhile P s). P c) \<longleftrightarrow> (\<forall>c \<in> set s. P c)"
  by (induction s) auto

lemma strip_empty_iff: "strip s = [] \<longleftrightarrow> (\<forall>c \<in> set s. is_space c)"
  by (simp add: strip_def all_dropWhile_iff)

lemma prefix_slice_to: "prefix (slice_to s n) s"
  by (simp add: slice_to_def take_is_prefix)

lemma length_slice_to_le: "length (slice_to s n) \<le> length s"
  by (simp add: slice_to_def min_def)

lemma length_slice_to_nonneg: "0 \<le> n \<Longrightarrow> int (length (slice_to s n)) \<le> n"
  by (simp add: slice_to_def)

subsection \<open>\<open>rfind\<close>\<close>

lemma filter_rev_upt_Nil: "filter P (rev [0..<n]) = [] \<longleftrightarrow> (\<forall>i<n. \<not> P i)"
  by (auto simp: filter_empty_conv)

lemma filter_rev_upt_Cons:
  "filter P (rev [0..<n]) = i # r \<Longrightarrow> i < n \<and> P i \<and> (\<forall>j. i < j \<and> j < n \<longrightarrow> \<not> P j)"
proof (induction n)
  case 0
  then show ?case by simp
next
  case (Suc n)
  show ?case
  proof (cases "P n")
    case True
    with Suc.prems have "i = n" by simp
    with True show ?thesis by auto
  next
    case False
    with Suc.prems have "filter P (rev [0..<n]) = i # r" by simp
    from Suc.IH [OF this] False show ?thesis
      by (auto simp: less_Suc_eq)
  qed
qed

lemma rfind_cases:
  obtains (absent) "rfind s sub = - 1" and "\<forall>i \<le> length s. \<not> prefix sub (drop i s)"
  | (found) i where "rfind s sub = int i" and "i \<le> length s" and "prefix sub (drop i s)"
      and "\<forall>j. i < j \<and> j \<le> length s \<longrightarrow> \<not> prefix sub (drop j s)"
proof (cases "filter (\<lambda>i. prefix sub (drop i s)) (rev [0..<Suc (length s)])")
  case Nil
  then have "\<forall>i < Suc (length s). \<not> prefix sub (drop i s)"
    by (simp only: filter_rev_upt_Nil)
  then have "\<forall>i \<le> length s. \<not> prefix sub (drop i s)" by (simp add: less_Suc_eq_le)
  moreover from Nil have "rfind s sub = - 1" by (simp add: rfind_def)
  ultimately show ?thesis using absent by blast
next
  case (Cons i r)
  from filter_rev_upt_Cons [OF Cons]
  have "i \<le> length s" "prefix sub (drop i s)"
    "\<forall>j. i < j \<and> j \<le> length s \<longrightarrow> \<not> prefix sub (drop j s)"
    by (auto simp: less_Suc_eq_le)
  moreover from Cons have "rfind s sub = int i" by (simp add: rfind_def)
  ultimately show ?thesis using found by blast
qed

lemma prefix_single_drop: "prefix [c] (drop i s) \<longleftrightarrow> i < length s \<and> s ! i = c"
proof (cases "i < length s")
  case True
  then have "drop i s = s ! i # drop (Suc i) s" by (simp add: Cons_nth_drop_Suc)
  with True show ?thesis by auto
next
  case False
  then show ?thesis by simp
qed


section \<open>Truncation\<close>

text \<open>Every summarizer that the constructor returns has the limits 100000 and 2000.\<close>

lemma ClaudeProcessor_init_limits:
  "fst (ClaudeProcessor_init api_key mdl) = Inr self \<Longrightarrow>
   max_input_tokens self = 100000 \<and> target_output_tokens self = 2000 \<and> model self = mdl"
  by (auto simp: ClaudeProcessor_init_def split: if_splits)

text \<open>
  C6. Truncating a text that is already short returns it unchanged: a text whose estimated
  token count is at most \<open>max_input_tokens - 1000\<close> comes back from
  \<open>truncate_pdf_content\<close> as it is, and a text with a non-whitespace character and at
  most \<open>max_chars\<close> characters comes back from \<open>validate_text_length\<close> as it is. In
  both cases nothing is logged.
\<close>

theorem truncation_short_unchanged:
  "(estimate_tokens text \<le> max_input_tokens self - 1000 \<longrightarrow>
      truncate_pdf_content self text = (text, [])) \<and>
   ((\<exists>c \<in> set text. \<not> is_space c) \<and> int (length text) \<le> max_chars \<longrightarrow>
      validate_text_length text max_chars = (Inr text, []))"
  by (auto simp: truncate_pdf_content_def validate_text_length_def strip_empty_iff)

theorem truncation_short_unchanged_witness:
  "truncate_pdf_content
     \<lparr>model = ascii ''claude-sonnet-4-0'', max_input_tokens = 100000, target_output_tokens = 2000\<rparr>
     (ascii ''Abstract. We study PDFs.'') = (ascii ''Abstract. We study PDFs.'', []) \<and>
   validate_text_length (ascii ''Abstract. We study PDFs.'') 5000 =
     (Inr (ascii ''Abstract. We study PDFs.''), [])"
proof -
  let ?p = "\<lparr>model = ascii ''claude-sonnet-4-0'', max_input_tokens = 100000,
             target_output_tokens = 2000\<rparr>"
  let ?t = "ascii ''Abstract. We study PDFs.''"
  have a: "estimate_tokens ?t \<le> max_input_tokens ?p - 1000"
    by (simp add: estimate_tokens_def ascii_def)
  have b: "\<exists>c \<in> set ?t. \<not> is_space c"
    by (simp add: ascii_def is_space_def)
  have c: "int (length ?t) \<le> 5000"
    by (simp add: ascii_def)
  from truncation_short_unchanged [of ?t ?p 5000] a b c show ?thesis
    by blast
qed

text \<open>
  C10. Both truncations return a prefix of their input: the result of
  \<open>truncate_pdf_content\<close> is a prefix of the text for every text, and for every text with
  a non-whitespace character \<open>validate_text_length\<close> returns a string, which is a prefix
  of the text.
\<close>

theorem truncation_returns_prefix:
  "prefix (fst (truncate_pdf_content self text)) text \<and>
   ((\<exists>c \<in> set text. \<not> is_space c) \<longrightarrow>
      (\<exists>r. fst (validate_text_length text max_chars) = Inr r \<and> prefix r text))"
proof -
  have two: "prefix (slice_to (slice_to text n) m) text" for n m
    using prefix_slice_to [of "slice_to text n" m] prefix_slice_to [of "text" n]
    by (rule prefix_order.trans)
  have "prefix (fst (truncate_pdf_content self text)) text"
    by (simp add: truncate_pdf_content_def Let_def two prefix_slice_to)
  moreover have "\<exists>r. fst (validate_text_length text max_chars) = Inr r \<and> prefix r text"
    if "\<exists>c \<in> set text. \<not> is_space c"
  proof -
    from that have "strip text \<noteq> []" by (simp add: strip_empty_iff)
    then show ?thesis
      by (simp add: validate_text_length_def Let_def two prefix_slice_to)
  qed
  ultimately show ?thesis by blast
qed


theorem truncation_returns_prefix_witness:
  "prefix (fst (truncate_pdf_content
      \<lparr>model = ascii ''claude-sonnet-4-0'', max_input_tokens = 100000, target_output_tokens = 2000\<rparr>
      (replicate 500000 97))) (replicate 500000 97) \<and>
   (\<exists>r. fst (validate_text_length (replicate 6000 97) 5000) = Inr r \<and> prefix r (replicate 6000 97))"
proof -
  have nb: "\<exists>c \<in> set (replicate 6000 (97 :: nat)). \<not> is_space c"
    by (simp add: is_space_def)
  from truncation_returns_prefix [of _ "replicate 500000 97" 5000, THEN conjunct1]
    truncation_returns_prefix [of undefined "replicate 6000 97" 5000, THEN conjunct2, rule_format, OF nb]
  show ?thesis by blast
qed

lemma length_slice_slice_nonneg: "0 \<le> n \<Longrightarrow> int (length (slice_to (slice_to s n) m)) \<le> n"
  using length_slice_to_le [of "slice_to s n" m] length_slice_to_nonneg [of n s] by linarith

lemma truncate_pdf_content_short:
  "estimate_tokens text \<le> max_input_tokens self - 1000 \<Longrightarrow> fst (truncate_pdf_content self text) = text"
  by (simp add: truncate_pdf_content_def)

lemma truncate_pdf_content_long:
  "\<not> estimate_tokens text \<le> max_input_tokens self - 1000 \<Longrightarrow> 1000 \<le> max_input_tokens self \<Longrightarrow>
   int (length (fst (truncate_pdf_content self text))) \<le> (max_input_tokens self - 1000) * 4"
  by (simp add: truncate_pdf_content_def Let_def length_slice_slice_nonneg length_slice_to_nonneg)

text \<open>
  C1, as amended. For a token limit of at least 1000, the result of
  \<open>truncate_pdf_content\<close> has an estimated token count of at most
  \<open>max_input_tokens - 1000\<close>; its character count is at most
  \<open>(max_input_tokens - 1000) * 4 + 3\<close>, and at most \<open>(max_input_tokens - 1000) * 4\<close>
  whenever the text was cut. For a non-negative \<open>max_chars\<close> and a text with a
  non-whitespace character, \<open>validate_text_length\<close> returns a string of at most
  \<open>max_chars\<close> characters.
\<close>

theorem truncation_within_limit:
  "(1000 \<le> max_input_tokens self \<longrightarrow>
      estimate_tokens (fst (truncate_pdf_content self text)) \<le> max_input_tokens self - 1000 \<and>
      int (length (fst (truncate_pdf_content self text))) \<le> (max_input_tokens self - 1000) * 4 + 3 \<and>
      (fst (truncate_pdf_content self text) \<noteq> text \<longrightarrow>
         int (length (fst (truncate_pdf_content self text))) \<le> (max_input_tokens self - 1000) * 4)) \<and>
   (0 \<le> max_chars \<and> (\<exists>c \<in> set text. \<not> is_space c) \<longrightarrow>
      (\<exists>r. fst (validate_text_length text max_chars) = Inr r \<and> int (length r) \<le> max_chars))"
proof -
  let ?r = "fst (truncate_pdf_content self text)"
  let ?a = "max_input_tokens self - 1000"
  have summarizer:
    "estimate_tokens ?r \<le> ?a \<and> int (length ?r) \<le> ?a * 4 + 3 \<and> (?r \<noteq> text \<longrightarrow> int (length ?r) \<le> ?a * 4)"
    if big: "1000 \<le> max_input_tokens self"
  proof (cases "estimate_tokens text \<le> ?a")
    case True
    then have "?r = text" by (rule truncate_pdf_content_short)
    moreover from True have "int (length text) \<le> ?a * 4 + 3"
      by (simp add: estimate_tokens_def)
    ultimately show ?thesis using True by simp
  next
    case False
    from truncate_pdf_content_long [OF False big] show ?thesis
      by (simp add: estimate_tokens_def)
  qed
  have synthesizer:
    "\<exists>r. fst (validate_text_length text max_chars) = Inr r \<and> int (length r) \<le> max_chars"
    if h: "0 \<le> max_chars \<and> (\<exists>c \<in> set text. \<not> is_space c)"
  proof -
    from h have "strip text \<noteq> []" by (simp add: strip_empty_iff)
    with h show ?thesis
      by (simp add: validate_text_length_def Let_def length_slice_slice_nonneg length_slice_to_nonneg)
  qed
  from summarizer synthesizer show ?thesis by blast
qed

theorem truncation_within_limit_witness:
  "estimate_tokens (fst (truncate_pdf_content
      \<lparr>model = ascii ''claude-sonnet-4-0'', max_input_tokens = 100000, target_output_tokens = 2000\<rparr>
      (replicate 500000 97))) \<le> 99000 \<and>
   int (length (fst (truncate_pdf_content
      \<lparr>model = ascii ''claude-sonnet-4-0'', max_input_tokens = 100000, target_output_tokens = 2000\<rparr>
      (replicate 500000 97)))) \<le> 396000 \<and>
   (\<exists>r. fst (validate_text_length (replicate 6000 97) 5000) = Inr r \<and> int (length r) \<le> 5000)"
proof -
  let ?p = "\<lparr>model = ascii ''claude-sonnet-4-0'', max_input_tokens = 100000,
             target_output_tokens = 2000\<rparr>"
  let ?t = "replicate 500000 (97 :: nat)"
  let ?r = "fst (truncate_pdf_content ?p ?t)"
  have big: "1000 \<le> max_input_tokens ?p" by simp
  have nb: "(0 :: int) \<le> 5000 \<and> (\<exists>c \<in> set (replicate 6000 (97 :: nat)). \<not> is_space c)"
    by (simp add: is_space_def)
  note summarizer = truncation_within_limit [of ?p ?t 5000, THEN conjunct1, rule_format, OF big]
  note synthesizer =
    truncation_within_limit [of ?p "replicate 6000 97" 5000, THEN conjunct2, rule_format, OF nb]
  from summarizer have "int (length ?r) \<le> 396003" by simp
  then have "?r \<noteq> ?t" by auto
  with summarizer have "int (length ?r) \<le> 396000" by simp
  with summarizer synthesizer show ?thesis by simp
qed

text \<open>
  The token estimate rounds down, so a text of 396001 characters is estimated at 99000
  tokens and returned whole by the configured summarizer: its character count exceeds
  \<open>(100000 - 1000) * 4\<close>.
\<close>

theorem truncation_char_budget_counterexample:
  "\<not> int (length (fst (truncate_pdf_content
        \<lparr>model = ascii ''claude-sonnet-4-0'', max_input_tokens = 100000, target_output_tokens = 2000\<rparr>
        (replicate 396001 97)))) \<le> (100000 - 1000) * 4"
  by (simp add: truncate_pdf_content_def estimate_tokens_def)


lemma rfind_char_cases:
  obtains (absent) "rfind s [c] = - 1" and "\<forall>i < length s. s ! i \<noteq> c"
  | (found) i where "rfind s [c] = int i" and "i < length s" and "s ! i = c"
      and "\<forall>j. i < j \<and> j < length s \<longrightarrow> s ! j \<noteq> c"
proof (cases rule: rfind_cases [where s = s and sub = "[c]"])
  case absent
  have "\<forall>i < length s. s ! i \<noteq> c"
  proof (intro allI impI)
    fix i assume "i < length s"
    with absent(2) have "\<not> prefix [c] (drop i s)" by simp
    with \<open>i < length s\<close> show "s ! i \<noteq> c" by (simp add: prefix_single_drop)
  qed
  with absent(1) show ?thesis using that(1) by blast
next
  case (found i)
  from found(3) have i: "i < length s" "s ! i = c" by (simp_all add: prefix_single_drop)
  have "\<forall>j. i < j \<and> j < length s \<longrightarrow> s ! j \<noteq> c"
  proof (intro allI impI)
    fix j assume j: "i < j \<and> j < length s"
    with found(4) have "\<not> prefix [c] (drop j s)" by simp
    with j show "s ! j \<noteq> c" by (simp add: prefix_single_drop)
  qed
  with found(1) i show ?thesis using that(2) by blast
qed

lemma validate_text_length_long:
  assumes nb: "\<exists>c \<in> set text. \<not> is_space c" and long: "max_chars < int (length text)"
  shows "fst (validate_text_length text max_chars) =
    Inr (let truncated = slice_to text max_chars; last_sentence = rfind truncated [46]
         in if real_of_int last_sentence > real_of_int max_chars * 0.8
            then slice_to truncated (last_sentence + 1) else truncated)"
proof -
  from nb have "strip text \<noteq> []" by (simp add: strip_empty_iff)
  with long show ?thesis by (simp add: validate_text_length_def Let_def)
qed

text \<open>
  C3. With the default limit of 5000, \<open>validate_text_length\<close> returns a text of exactly
  5000 characters (one of them not whitespace) unchanged. A text of 5001 characters or
  more is cut: the result has at most 5000 characters and differs from the text; it ends
  with the last period among the first 5000 characters when that period's index is above
  4000, and is the first 5000 characters otherwise.
\<close>

theorem synthesis_length_guard_boundary:
  "((\<exists>c \<in> set text. \<not> is_space c) \<and> length text = 5000 \<longrightarrow>
      validate_text_length text 5000 = (Inr text, [])) \<and>
   ((\<exists>c \<in> set text. \<not> is_space c) \<and> 5001 \<le> length text \<longrightarrow>
      (\<exists>r. fst (validate_text_length text 5000) = Inr r \<and> length r \<le> 5000 \<and> r \<noteq> text \<and>
         ((\<exists>i. 4000 < i \<and> i < 5000 \<and> text ! i = 46 \<and>
               (\<forall>j. i < j \<and> j < 5000 \<longrightarrow> text ! j \<noteq> 46) \<and> r = take (Suc i) text) \<or>
          ((\<forall>i. 4000 < i \<and> i < 5000 \<longrightarrow> text ! i \<noteq> 46) \<and> r = take 5000 text))))"
proof (intro conjI impI)
  assume "(\<exists>c \<in> set text. \<not> is_space c) \<and> length text = 5000"
  then show "validate_text_length text 5000 = (Inr text, [])"
    by (simp add: validate_text_length_def strip_empty_iff)
next
  assume h: "(\<exists>c \<in> set text. \<not> is_space c) \<and> 5001 \<le> length text"
  define t where "t = take 5000 text"
  have lt: "length t = 5000" using h by (simp add: t_def)
  have nth_t: "t ! j = text ! j" if "j < 5000" for j
    using that by (simp add: t_def)
  have slice: "slice_to text 5000 = t" by (simp add: slice_to_def t_def)
  from h have "5000 < int (length text)" by simp
  with h have res: "fst (validate_text_length text 5000) =
      Inr (if real_of_int (rfind t [46]) > 4000 then slice_to t (rfind t [46] + 1) else t)"
    using validate_text_length_long [of "text" 5000] by (simp add: slice Let_def)
  show "\<exists>r. fst (validate_text_length text 5000) = Inr r \<and> length r \<le> 5000 \<and> r \<noteq> text \<and>
         ((\<exists>i. 4000 < i \<and> i < 5000 \<and> text ! i = 46 \<and>
               (\<forall>j. i < j \<and> j < 5000 \<longrightarrow> text ! j \<noteq> 46) \<and> r = take (Suc i) text) \<or>
          ((\<forall>i. 4000 < i \<and> i < 5000 \<longrightarrow> text ! i \<noteq> 46) \<and> r = take 5000 text))"
  proof (cases rule: rfind_char_cases [where s = t and c = 46])
    case absent
    with lt nth_t have none: "\<forall>i < 5000. text ! i \<noteq> 46" by simp
    from absent res have "fst (validate_text_length text 5000) = Inr t" by simp
    moreover have "t \<noteq> text" using lt h by auto
    ultimately show ?thesis using none lt by (auto simp: t_def)
  next
    case (found i)
    with lt nth_t have i: "i < 5000" "text ! i = 46"
      and after: "\<forall>j. i < j \<and> j < 5000 \<longrightarrow> text ! j \<noteq> 46"
      by auto
    show ?thesis
    proof (cases "4000 < i")
      case True
      with found res have "fst (validate_text_length text 5000) = Inr (slice_to t (int i + 1))"
        by simp
      moreover have "slice_to t (int i + 1) = take (Suc i) text"
        using i by (simp add: slice_to_def t_def nat_add_distrib min_def)
      moreover have "length (take (Suc i) text) \<le> 5000" using i by simp
      moreover have "take (Suc i) text \<noteq> text"
      proof
        assume "take (Suc i) text = text"
        then have "length (take (Suc i) text) = length text" by simp
        with i h show False by simp
      qed
      ultimately show ?thesis using True i after by auto
    next
      case False
      with found res have "fst (validate_text_length text 5000) = Inr t" by simp
      moreover have "t \<noteq> text" using lt h by auto
      moreover from False after have "\<forall>j. 4000 < j \<and> j < 5000 \<longrightarrow> text ! j \<noteq> 46" by auto
      ultimately show ?thesis using lt by (auto simp: t_def)
    qed
  qed
qed

theorem synthesis_length_guard_boundary_witness:
  "validate_text_length (replicate 5000 97) 5000 = (Inr (replicate 5000 97), []) \<and>
   fst (validate_text_length (replicate 5001 97) 5000) = Inr (replicate 5000 97) \<and>
   fst (validate_text_length (replicate 4500 97 @ 46 # replicate 1000 97) 5000) =
     Inr (replicate 4500 97 @ [46])"
proof -
  let ?a = "replicate 5000 (97 :: nat)"
  let ?b = "replicate 5001 (97 :: nat)"
  let ?c = "replicate 4500 (97 :: nat) @ 46 # replicate 1000 97"
  have a: "(\<exists>c \<in> set ?a. \<not> is_space c) \<and> length ?a = 5000"
    by (simp add: is_space_def)
  have b: "(\<exists>c \<in> set ?b. \<not> is_space c) \<and> 5001 \<le> length ?b"
    by (simp add: is_space_def)
  have c: "(\<exists>c \<in> set ?c. \<not> is_space c) \<and> 5001 \<le> length ?c"
    by (simp add: is_space_def)
  note exact = synthesis_length_guard_boundary [of ?a, THEN conjunct1, rule_format, OF a]
  note plain = synthesis_length_guard_boundary [of ?b, THEN conjunct2, rule_format, OF b]
  note period = synthesis_length_guard_boundary [of ?c, THEN conjunct2, rule_format, OF c]
  have "fst (validate_text_length ?b 5000) = Inr ?a"
    using plain by auto
  moreover have "fst (validate_text_length ?c 5000) = Inr (replicate 4500 97 @ [46])"
  proof -
    have at: "i = 4500" if "i < 5000" and "?c ! i = 46" for i
      using that by (auto simp: nth_append nth_Cons' split: if_splits)
    have mid: "?c ! 4500 = 46" by (simp add: nth_append)
    have tk: "take (Suc 4500) ?c = replicate 4500 97 @ [46]" by simp
    from period obtain r where r: "fst (validate_text_length ?c 5000) = Inr r"
      and shape: "(\<exists>i. 4000 < i \<and> i < 5000 \<and> ?c ! i = 46 \<and> r = take (Suc i) ?c) \<or>
        (\<forall>i. 4000 < i \<and> i < 5000 \<longrightarrow> ?c ! i \<noteq> 46)"
      by blast
    from shape show ?thesis
    proof
      assume "\<exists>i. 4000 < i \<and> i < 5000 \<and> ?c ! i = 46 \<and> r = take (Suc i) ?c"
      then obtain i where i: "i < 5000" "?c ! i = 46" and ri: "r = take (Suc i) ?c" by blast
      from i have "i = 4500" by (rule at)
      with ri have "r = take (Suc 4500) ?c" by simp
      with tk r show ?thesis by simp
    next
      assume "\<forall>i. 4000 < i \<and> i < 5000 \<longrightarrow> ?c ! i \<noteq> 46"
      then have "?c ! 4500 \<noteq> 46" by simp
      with mid show ?thesis by simp
    qed
  qed
  ultimately show ?thesis using exact by simp
qed

section \<open>Empty input\<close>

text \<open>
  C2. For a blank text (empty, or whitespace only) \<open>generate_summary\<close> and
  \<open>generate_audio\<close> both fail with a \<open>ValueError\<close> that says the input is empty, and
  their traces are empty: neither service has been called, whatever the services are.
\<close>

theorem blank_input_rejected:
  "\<forall>c \<in> set text. is_space c \<Longrightarrow>
   generate_summary self client text target_minutes =
     (Inl (ValueError (ascii ''PDF content cannot be empty'')), []) \<and>
   generate_audio self' client' text = (Inl (ValueError (ascii ''Text cannot be empty'')), [])"
  by (simp add: generate_summary_def generate_audio_def validate_text_length_def strip_empty_iff)

theorem blank_input_rejected_witness:
  "generate_summary
     \<lparr>model = ascii ''claude-sonnet-4-0'', max_input_tokens = 100000, target_output_tokens = 2000\<rparr>
     (\<lambda>m k t p. Inr [ascii ''A summary.'']) [32, 9, 10, 32] 3 =
     (Inl (ValueError (ascii ''PDF content cannot be empty'')), []) \<and>
   generate_audio
     \<lparr>voice_id = ascii ''vBaThRCUhBj6DkxqB593'', model_id = ascii ''eleven_multilingual_v2'',
      output_format = ascii ''mp3_44100_128''\<rparr>
     (\<lambda>v f t m. Inr (Bytes ''ID3'')) [32, 9, 10, 32] =
     (Inl (ValueError (ascii ''Text cannot be empty'')), [])"
proof -
  have blank: "\<forall>c \<in> set [32, 9, 10, 32 :: nat]. is_space c"
    by (simp add: is_space_def)
  from blank_input_rejected [OF blank] show ?thesis by blast
qed

section \<open>Duration estimate\<close>

lemma split_Nil: "split [] = []"
  by (simp add: split.simps)

lemma split_Cons:
  "split (c # cs) =
     (if is_space c then split cs
      else (c # takeWhile (\<lambda>x. \<not> is_space x) cs) # split (dropWhile (\<lambda>x. \<not> is_space x) cs))"
proof (cases "is_space c")
  case True
  have "split (c # cs) = (case dropWhile is_space (c # cs) of [] \<Rightarrow> []
      | d # ds \<Rightarrow> takeWhile (\<lambda>x. \<not> is_space x) (d # ds) # split (dropWhile (\<lambda>x. \<not> is_space x) (d # ds)))"
    by (rule split.simps)
  also from True have "dropWhile is_space (c # cs) = dropWhile is_space cs" by simp
  also have "(case dropWhile is_space cs of [] \<Rightarrow> []
      | d # ds \<Rightarrow> takeWhile (\<lambda>x. \<not> is_space x) (d # ds) # split (dropWhile (\<lambda>x. \<not> is_space x) (d # ds)))
      = split cs"
    by (rule split.simps [symmetric])
  finally show ?thesis using True by simp
next
  case False
  then show ?thesis by (simp add: split.simps [of "c # cs"])
qed

text \<open>
  C9. For a positive \<open>words_per_minute\<close>, \<open>estimate_audio_duration\<close> returns a duration
  for both texts, and a text with at most as many whitespace-separated words as another
  has at most its duration. The order survives every monotone rounding of the two
  quotients, such as the rounding to the nearest float.
\<close>

theorem duration_monotone:
  "0 < words_per_minute \<Longrightarrow> length (split a) \<le> length (split b) \<Longrightarrow>
   \<exists>da db. fst (estimate_audio_duration a words_per_minute) = Inr da \<and>
     fst (estimate_audio_duration b words_per_minute) = Inr db \<and> da \<le> db \<and>
     (\<forall>fl :: real \<Rightarrow> real. mono fl \<longrightarrow> fl da \<le> fl db)"
  by (simp add: estimate_audio_duration_def Let_def divide_right_mono monoD)

theorem duration_monotone_witness:
  "\<exists>da db. fst (estimate_audio_duration (ascii ''one two'') 150) = Inr da \<and>
     fst (estimate_audio_duration (ascii ''three  short words'') 150) = Inr db \<and> da \<le> db"
proof -
  have wpm: "(0 :: int) < 150" by simp
  have "split (ascii ''one two'') = [ascii ''one'', ascii ''two'']"
    by (simp add: split_Nil split_Cons ascii_def is_space_def)
  moreover have "split (ascii ''three  short words'') = [ascii ''three'', ascii ''short'', ascii ''words'']"
    by (simp add: split_Nil split_Cons ascii_def is_space_def)
  ultimately have words: "length (split (ascii ''one two'')) \<le> length (split (ascii ''three  short words''))"
    by simp
  from duration_monotone [OF wpm words] show ?thesis by blast
qed

section \<open>Connectivity check\<close>

lemma validate_test_phrase:
  "validate_text_length (ascii ''Testing connection.'') 5000 = (Inr (ascii ''Testing connection.''), [])"
proof -
  have "strip (ascii ''Testing connection.'') \<noteq> []"
    by (simp add: strip_empty_iff ascii_def is_space_def)
  then show ?thesis by (simp add: validate_text_length_def ascii_def)
qed

lemma generate_sync_result:
  "fst (generate_sync self client text) =
     (case client (voice_id self) (output_format self) text (model_id self) of
        Inl e \<Rightarrow> Inl e
      | Inr (Bytes audio_bytes) \<Rightarrow> Inr audio_bytes
      | Inr (Iterator chunks) \<Rightarrow> join chunks)"
  by (simp add: generate_sync_def Let_def split: sum.splits audio.splits)

lemma generate_audio_test_phrase:
  "fst (generate_audio self client (ascii ''Testing connection.'')) =
     (case fst (generate_sync self client (ascii ''Testing connection.'')) of
        Inl e \<Rightarrow> Inl (RuntimeError (ascii ''Failed to generate audio: '' @ exn_str e) e)
      | Inr audio_data \<Rightarrow> Inr audio_data)"
  by (simp add: generate_audio_def validate_test_phrase estimate_audio_duration_def Let_def
      split: prod.splits sum.splits)

lemma test_connection_result:
  "fst (test_connection self client) =
     (case fst (generate_audio self client (ascii ''Testing connection.'')) of
        Inl e \<Rightarrow> Inr False
      | Inr test_audio \<Rightarrow> Inr (0 < length test_audio))"
  by (simp add: test_connection_def split: prod.splits sum.splits)

text \<open>
  C7. \<open>test_connection\<close> always returns a truth value. It returns true exactly when
  \<open>generate_audio\<close> on the phrase \<^verbatim>\<open>Testing connection.\<close> returns a non-empty byte
  sequence, that is, exactly when the synthesis service, asked for that phrase, returns
  non-empty bytes or an iterator whose chunks join to non-empty bytes. When
  \<open>generate_audio\<close> raises, the exception is logged and the result is false.
\<close>

theorem connection_test_never_raises:
  "(\<exists>b. fst (test_connection self client) = Inr b) \<and>
   (fst (test_connection self client) = Inr True \<longleftrightarrow>
      (\<exists>audio_data. fst (generate_audio self client (ascii ''Testing connection.'')) = Inr audio_data \<and>
         0 < length audio_data)) \<and>
   (fst (test_connection self client) = Inr True \<longleftrightarrow>
      (\<exists>audio_data. 0 < length audio_data \<and>
         (client (voice_id self) (output_format self) (ascii ''Testing connection.'') (model_id self) =
            Inr (Bytes audio_data) \<or>
          (\<exists>chunks.
             client (voice_id self) (output_format self) (ascii ''Testing connection.'') (model_id self) =
               Inr (Iterator chunks) \<and> join chunks = Inr audio_data)))) \<and>
   (\<forall>e. fst (generate_audio self client (ascii ''Testing connection.'')) = Inl e \<longrightarrow>
      test_connection self client =
        (Inr False,
         snd (generate_audio self client (ascii ''Testing connection.'')) @
         [Logged ERROR (ascii ''Connection test failed: {e}'') [AExn e]]))"
proof (intro conjI)
  show "\<exists>b. fst (test_connection self client) = Inr b"
    by (cases "fst (generate_audio self client (ascii ''Testing connection.''))")
      (auto simp: test_connection_result)
  show "fst (test_connection self client) = Inr True \<longleftrightarrow>
      (\<exists>audio_data. fst (generate_audio self client (ascii ''Testing connection.'')) = Inr audio_data \<and>
         0 < length audio_data)"
    by (auto simp: test_connection_result split: sum.splits)
  show "fst (test_connection self client) = Inr True \<longleftrightarrow>
      (\<exists>audio_data. 0 < length audio_data \<and>
         (client (voice_id self) (output_format self) (ascii ''Testing connection.'') (model_id self) =
            Inr (Bytes audio_data) \<or>
          (\<exists>chunks.
             client (voice_id self) (output_format self) (ascii ''Testing connection.'') (model_id self) =
               Inr (Iterator chunks) \<and> join chunks = Inr audio_data)))"
    by (auto simp: test_connection_result generate_audio_test_phrase generate_sync_result
        split: sum.splits audio.splits)
  show "\<forall>e. fst (generate_audio self client (ascii ''Testing connection.'')) = Inl e \<longrightarrow>
      test_connection self client =
        (Inr False,
         snd (generate_audio self client (ascii ''Testing connection.'')) @
         [Logged ERROR (ascii ''Connection test failed: {e}'') [AExn e]])"
    by (auto simp: test_connection_def split: prod.splits sum.splits)
qed

theorem connection_test_never_raises_witness:
  "fst (test_connection
      \<lparr>voice_id = ascii ''vBaThRCUhBj6DkxqB593'', model_id = ascii ''eleven_multilingual_v2'',
       output_format = ascii ''mp3_44100_128''\<rparr>
      (\<lambda>v f t m. Inr (Iterator [Inr ''ID3'', Inr ''data'']))) = Inr True \<and>
   fst (test_connection
      \<lparr>voice_id = ascii ''vBaThRCUhBj6DkxqB593'', model_id = ascii ''eleven_multilingual_v2'',
       output_format = ascii ''mp3_44100_128''\<rparr>
      (\<lambda>v f t m. Inr (Iterator [Inr ''ID3'', Inl (OtherException (ascii ''connection reset''))]))) =
     Inr False \<and>
   fst (test_connection
      \<lparr>voice_id = ascii ''vBaThRCUhBj6DkxqB593'', model_id = ascii ''eleven_multilingual_v2'',
       output_format = ascii ''mp3_44100_128''\<rparr>
      (\<lambda>v f t m. Inr (Bytes []))) = Inr False"
proof -
  let ?p = "\<lparr>voice_id = ascii ''vBaThRCUhBj6DkxqB593'', model_id = ascii ''eleven_multilingual_v2'',
             output_format = ascii ''mp3_44100_128''\<rparr>"
  let ?ok = "\<lambda>v f t m :: pystr. Inr (Iterator [Inr ''ID3'', Inr ''data'']) :: exn + audio"
  let ?broken = "\<lambda>v f t m :: pystr.
    Inr (Iterator [Inr ''ID3'', Inl (OtherException (ascii ''connection reset''))]) :: exn + audio"
  let ?empty = "\<lambda>v f t m :: pystr. Inr (Bytes []) :: exn + audio"
  have "fst (test_connection ?p ?ok) = Inr True"
    using connection_test_never_raises [of ?p ?ok] by simp
  moreover have "fst (test_connection ?p ?broken) = Inr False"
    using connection_test_never_raises [of ?p ?broken] by auto
  moreover have "fst (test_connection ?p ?empty) = Inr False"
    using connection_test_never_raises [of ?p ?empty] by auto
  ultimately show ?thesis by simp
qed

section \<open>Summary length\<close>

lemma str_int_450: "str_int 450 = [52, 53, 48]"
  by code_simp

lemma prompt_names_target:
  "sublist (ascii ''(approximately 450 words)'') (create_summary_prompt pdf_text 3) \<and>
   sublist (ascii ''Exactly 450 words'') (create_summary_prompt pdf_text 3)"
  by (simp add: create_summary_prompt_def Let_def str_int_450 ascii_def sublist_Cons_right
      sublist_append)

lemma truncate_logs_only: "e \<in> set (snd (truncate_pdf_content self text)) \<Longrightarrow> \<exists>l m a. e = Logged l m a"
  by (auto simp: truncate_pdf_content_def Let_def split: if_splits)

lemma summary_error_logs_only: "e \<in> set (summary_error x) \<Longrightarrow> \<exists>l m a. e = Logged l m a"
  by (auto simp: summary_error_def split: exn.splits)

lemma check_summary_logs_only: "e \<in> set (snd (check_summary msg n)) \<Longrightarrow> \<exists>l m a. e = Logged l m a"
  by (auto simp: check_summary_def Let_def split: list.splits if_splits)

lemma check_summary_three:
  "check_summary (block # rest) 3 = (Inr (strip block), ev) \<Longrightarrow>
   (\<exists>m a. Logged WARNING m a \<in> set ev) \<longleftrightarrow>
     length (split (strip block)) < 315 \<or> 585 < length (split (strip block))"
  by (auto simp: check_summary_def Let_def split: if_splits)

lemma check_summary_result: "fst (check_summary (block # rest) n) = Inr (strip block)"
  by (simp add: check_summary_def Let_def)

text \<open>
  C5. For three target minutes and a text with a non-whitespace character,
  \<open>generate_summary\<close> calls the summarization service exactly once, with a prompt that
  names the target of 450 words (\<^verbatim>\<open>(approximately 450 words)\<close> and
  \<^verbatim>\<open>Exactly 450 words\<close>). When the service answers with a message whose first block is
  a text, the function returns that text stripped, and among the events after the call
  there is a warning exactly when the word count of the returned summary is below 315 or
  above 585.
\<close>

theorem summary_target_words:
  assumes nb: "\<exists>c \<in> set text. \<not> is_space c"
  shows "\<exists>prompt pre post.
    snd (generate_summary self client text 3) =
      pre @ MessagesCreate (model self) (target_output_tokens self) 0.1 prompt # post \<and>
    (\<forall>m k t q. MessagesCreate m k t q \<notin> set pre \<and> MessagesCreate m k t q \<notin> set post) \<and>
    sublist (ascii ''(approximately 450 words)'') prompt \<and>
    sublist (ascii ''Exactly 450 words'') prompt \<and>
    (\<forall>block rest.
       client (model self) (target_output_tokens self) 0.1 prompt = Inr (block # rest) \<longrightarrow>
       fst (generate_summary self client text 3) = Inr (strip block) \<and>
       ((\<exists>m a. Logged WARNING m a \<in> set post) \<longleftrightarrow>
          length (split (strip block)) < 315 \<or> 585 < length (split (strip block))))"
proof -
  obtain processed ev1 where tr: "truncate_pdf_content self text = (processed, ev1)"
    by (cases "truncate_pdf_content self text")
  define prompt where "prompt = create_summary_prompt processed 3"
  define pre where "pre = ev1 @
    [Logged INFO (ascii ''Generating summary for {len(processed_content)} characters of content'')
       [AInt (int (length processed))]]"
  define response where "response = client (model self) (target_output_tokens self) 0.1 prompt"
  define post where "post =
    (case response of
       Inl e \<Rightarrow> summary_error e
     | Inr msg \<Rightarrow>
         (case check_summary msg 3 of
            (Inl e, ev4) \<Rightarrow> ev4 @ summary_error e
          | (Inr summary, ev4) \<Rightarrow> ev4))"
  from nb have "strip text \<noteq> []" by (simp add: strip_empty_iff)
  then have trace: "snd (generate_summary self client text 3) =
      pre @ MessagesCreate (model self) (target_output_tokens self) 0.1 prompt # post"
    by (simp add: generate_summary_def tr make_sync_api_call_def prompt_def pre_def post_def
        response_def split: sum.splits prod.splits)
  have "e \<in> set ev1 \<Longrightarrow> \<exists>l m a. e = Logged l m a" for e
    using truncate_logs_only [of e self "text"] by (simp add: tr)
  then have no_pre: "MessagesCreate m k t q \<notin> set pre" for m k t q
    by (auto simp: pre_def)
  have "\<exists>l m a. e = Logged l m a" if e: "e \<in> set post" for e
  proof (cases response)
    case (Inl x)
    with e show ?thesis by (auto simp: post_def dest: summary_error_logs_only)
  next
    case (Inr msg)
    obtain r ev4 where cs: "check_summary msg 3 = (r, ev4)"
      by (cases "check_summary msg 3")
    then have "e' \<in> set ev4 \<Longrightarrow> \<exists>l m a. e' = Logged l m a" for e'
      using check_summary_logs_only [of e' msg 3] by simp
    with e Inr cs show ?thesis
      by (cases r) (auto simp: post_def dest: summary_error_logs_only)
  qed
  then have no_post: "MessagesCreate m k t q \<notin> set post" for m k t q
    by auto
  have answered: "fst (generate_summary self client text 3) = Inr (strip block) \<and>
       ((\<exists>m a. Logged WARNING m a \<in> set post) \<longleftrightarrow>
          length (split (strip block)) < 315 \<or> 585 < length (split (strip block)))"
    if r: "client (model self) (target_output_tokens self) 0.1 prompt = Inr (block # rest)"
    for block rest
  proof -
    obtain ev4 where cs: "check_summary (block # rest) 3 = (Inr (strip block), ev4)"
      using check_summary_result [of block rest 3]
      by (cases "check_summary (block # rest) 3") simp
    from r cs have "post = ev4" by (simp add: post_def response_def)
    moreover from \<open>strip text \<noteq> []\<close> r cs
    have "fst (generate_summary self client text 3) = Inr (strip block)"
      by (simp add: generate_summary_def tr make_sync_api_call_def prompt_def)
    ultimately show ?thesis using check_summary_three [OF cs] by simp
  qed
  from trace no_pre no_post prompt_names_target [of processed] answered show ?thesis
    unfolding prompt_def [symmetric] by blast
qed

theorem summary_target_words_witness:
  "fst (generate_summary
      \<lparr>model = ascii ''claude-sonnet-4-0'', max_input_tokens = 100000, target_output_tokens = 2000\<rparr>
      (\<lambda>m k t p. Inr [ascii '' A short summary. '']) (ascii ''Hello'') 3) =
     Inr (ascii ''A short summary.'') \<and>
   (\<exists>m a. Logged WARNING m a \<in> set (snd (generate_summary
      \<lparr>model = ascii ''claude-sonnet-4-0'', max_input_tokens = 100000, target_output_tokens = 2000\<rparr>
      (\<lambda>m k t p. Inr [ascii '' A short summary. '']) (ascii ''Hello'') 3))) \<and>
   (\<exists>prompt. sublist (ascii ''(approximately 450 words)'') prompt \<and>
      MessagesCreate (ascii ''claude-sonnet-4-0'') 2000 0.1 prompt \<in> set (snd (generate_summary
        \<lparr>model = ascii ''claude-sonnet-4-0'', max_input_tokens = 100000, target_output_tokens = 2000\<rparr>
        (\<lambda>m k t p. Inr [ascii '' A short summary. '']) (ascii ''Hello'') 3)))"
proof -
  let ?p = "\<lparr>model = ascii ''claude-sonnet-4-0'', max_input_tokens = 100000,
             target_output_tokens = 2000\<rparr>"
  let ?c = "\<lambda>m k t p :: pystr. Inr [ascii '' A short summary. ''] :: exn + message"
  have nb: "\<exists>c \<in> set (ascii ''Hello''). \<not> is_space c"
    by (simp add: ascii_def is_space_def)
  have st: "strip (ascii '' A short summary. '') = ascii ''A short summary.''"
    by (simp add: strip_def ascii_def is_space_def)
  have "split (ascii ''A short summary.'') = [ascii ''A'', ascii ''short'', ascii ''summary.'']"
    by (simp add: split_Nil split_Cons ascii_def is_space_def)
  then have few: "length (split (strip (ascii '' A short summary. ''))) < 315"
    by (simp add: st)
  from summary_target_words [OF nb, of ?p ?c]
  obtain prompt pre post where
    trace: "snd (generate_summary ?p ?c (ascii ''Hello'') 3) =
      pre @ MessagesCreate (model ?p) (target_output_tokens ?p) 0.1 prompt # post"
    and names: "sublist (ascii ''(approximately 450 words)'') prompt"
    and answered: "\<forall>block rest.
       ?c (model ?p) (target_output_tokens ?p) 0.1 prompt = Inr (block # rest) \<longrightarrow>
       fst (generate_summary ?p ?c (ascii ''Hello'') 3) = Inr (strip block) \<and>
       ((\<exists>m a. Logged WARNING m a \<in> set post) \<longleftrightarrow>
          length (split (strip block)) < 315 \<or> 585 < length (split (strip block)))"
    by (elim exE conjE) (rule that, assumption+)
  from answered have res: "fst (generate_summary ?p ?c (ascii ''Hello'') 3) = Inr (strip (ascii '' A short summary. ''))"
    and warn: "(\<exists>m a. Logged WARNING m a \<in> set post) \<longleftrightarrow>
      length (split (strip (ascii '' A short summary. ''))) < 315 \<or>
      585 < length (split (strip (ascii '' A short summary. '')))"
    by blast+
  from warn few obtain m a where "Logged WARNING m a \<in> set post" by blast
  with trace have "\<exists>m a. Logged WARNING m a \<in> set (snd (generate_summary ?p ?c (ascii ''Hello'') 3))"
    by auto
  moreover from trace names
  have "\<exists>prompt. sublist (ascii ''(approximately 450 words)'') prompt \<and>
      MessagesCreate (ascii ''claude-sonnet-4-0'') 2000 0.1 prompt \<in>
        set (snd (generate_summary ?p ?c (ascii ''Hello'') 3))"
    by auto
  ultimately show ?thesis using res st by simp
qed

section \<open>Extraction fallback\<close>

lemma extract_with_pypdf2_trace:
  "\<exists>post. snd (extract_with_pypdf2 pdf_reader f) = [Seek 0, PdfReader (f\<lparr>tell := 0\<rparr>)] @ post \<and>
     (\<forall>u. PdfReader u \<notin> set post)"
  by (auto simp: extract_with_pypdf2_def Let_def split: prod.splits sum.splits)

lemma extract_with_pypdf2_result:
  "pages_text (fst (pdf_reader (f\<lparr>tell := 0\<rparr>))) = Inr t \<Longrightarrow> strip t \<noteq> [] \<Longrightarrow>
   fst (extract_with_pypdf2 pdf_reader f) = Some (strip t)"
  by (auto simp: extract_with_pypdf2_def Let_def split: prod.splits sum.splits)

text \<open>
  C4. When pdfplumber raises (opening the file or extracting a page) or yields only
  whitespace, \<open>extract_pdf_text\<close> seeks to position 0 and then runs PyPDF2 on the same
  file with its cursor at 0, wherever pdfplumber left it; PyPDF2 is run exactly once, no
  seek precedes that one, and when the text PyPDF2 yields has a non-whitespace character
  the function returns that text, stripped.
\<close>

theorem fallback_extraction:
  assumes primary: "\<forall>t. pages_text (fst (pdfplumber_open f)) = Inr t \<longrightarrow> strip t = []"
  shows "\<exists>pre post.
    snd (extract_pdf_text pdfplumber_open pdf_reader (Some f)) =
      pre @ [Seek 0, PdfReader (f\<lparr>tell := 0\<rparr>)] @ post \<and>
    (\<forall>u. PdfReader u \<notin> set pre \<and> PdfReader u \<notin> set post) \<and>
    (\<forall>n. Seek n \<notin> set pre) \<and>
    (\<forall>t. pages_text (fst (pdf_reader (f\<lparr>tell := 0\<rparr>))) = Inr t \<and> strip t \<noteq> [] \<longrightarrow>
       fst (extract_pdf_text pdfplumber_open pdf_reader (Some f)) = Some (strip t))"
proof -
  obtain doc1 pos1 where p: "pdfplumber_open f = (doc1, pos1)"
    by (cases "pdfplumber_open f")
  let ?f1 = "f\<lparr>tell := pos1\<rparr>"
  have reset: "?f1\<lparr>tell := 0\<rparr> = f\<lparr>tell := 0\<rparr>" by simp
  from extract_with_pypdf2_trace [of pdf_reader ?f1]
  obtain post where post: "snd (extract_with_pypdf2 pdf_reader ?f1) =
      [Seek 0, PdfReader (f\<lparr>tell := 0\<rparr>)] @ post" and clean: "\<forall>u. PdfReader u \<notin> set post"
    by (auto simp: reset)
  have result: "fst (extract_with_pypdf2 pdf_reader ?f1) = Some (strip t)"
    if "pages_text (fst (pdf_reader (f\<lparr>tell := 0\<rparr>))) = Inr t" and "strip t \<noteq> []" for t
    using extract_with_pypdf2_result [of pdf_reader ?f1 t] that by (simp add: reset)
  show ?thesis
  proof (cases "pages_text doc1")
    case (Inl e)
    let ?pre = "[PdfplumberOpen f,
      Logged WARNING (ascii ''pdfplumber extraction failed: {e}'') [AExn e]]"
    from Inl p post have "snd (extract_pdf_text pdfplumber_open pdf_reader (Some f)) =
        ?pre @ [Seek 0, PdfReader (f\<lparr>tell := 0\<rparr>)] @ post"
      by (simp add: extract_pdf_text_def case_prod_beta Let_def)
    moreover from Inl p have "fst (extract_pdf_text pdfplumber_open pdf_reader (Some f)) =
        fst (extract_with_pypdf2 pdf_reader ?f1)"
      by (simp add: extract_pdf_text_def case_prod_beta Let_def)
    moreover have "\<forall>u. PdfReader u \<notin> set ?pre" "\<forall>n. Seek n \<notin> set ?pre" by simp_all
    ultimately show ?thesis using clean result by metis
  next
    case (Inr t)
    with primary p have blank: "strip t = []" by simp
    let ?pre = "[PdfplumberOpen f]"
    from Inr blank p post have "snd (extract_pdf_text pdfplumber_open pdf_reader (Some f)) =
        ?pre @ [Seek 0, PdfReader (f\<lparr>tell := 0\<rparr>)] @ post"
      by (simp add: extract_pdf_text_def case_prod_beta Let_def)
    moreover from Inr blank p have "fst (extract_pdf_text pdfplumber_open pdf_reader (Some f)) =
        fst (extract_with_pypdf2 pdf_reader ?f1)"
      by (simp add: extract_pdf_text_def case_prod_beta Let_def)
    moreover have "\<forall>u. PdfReader u \<notin> set ?pre" "\<forall>n. Seek n \<notin> set ?pre" by simp_all
    ultimately show ?thesis using clean result by metis
  qed
qed

theorem fallback_extraction_witness:
  "fst (extract_pdf_text
      (\<lambda>u. (Inr [Inr None, Inr (Some [32])], 4096))
      (\<lambda>u. (if tell u = 0
            then Inr [Inr (Some (ascii ''Page one'')), Inr (Some []), Inr (Some (ascii ''Page two''))]
            else Inl (OtherException (ascii ''EOF marker not found'')), 4096))
      (Some \<lparr>getvalue = ''%PDF-1.4'', name = ascii ''paper.pdf'', tell = 0\<rparr>)) =
     Some (ascii ''Page one'' @ [10, 10] @ ascii ''Page two'') \<and>
   (\<exists>pre post. snd (extract_pdf_text
      (\<lambda>u. (Inr [Inr None, Inr (Some [32])], 4096))
      (\<lambda>u. (if tell u = 0
            then Inr [Inr (Some (ascii ''Page one'')), Inr (Some []), Inr (Some (ascii ''Page two''))]
            else Inl (OtherException (ascii ''EOF marker not found'')), 4096))
      (Some \<lparr>getvalue = ''%PDF-1.4'', name = ascii ''paper.pdf'', tell = 0\<rparr>)) =
     pre @ [Seek 0, PdfReader \<lparr>getvalue = ''%PDF-1.4'', name = ascii ''paper.pdf'', tell = 0\<rparr>] @ post)"
proof -
  let ?plumber = "\<lambda>u :: BytesIO. (Inr [Inr None, Inr (Some [32])] :: exn + page list, 4096 :: nat)"
  let ?pypdf = "\<lambda>u :: BytesIO.
    (if tell u = 0
     then Inr [Inr (Some (ascii ''Page one'')), Inr (Some []), Inr (Some (ascii ''Page two''))]
     else Inl (OtherException (ascii ''EOF marker not found'')) :: exn + page list, 4096 :: nat)"
  let ?f = "\<lparr>getvalue = ''%PDF-1.4'', name = ascii ''paper.pdf'', tell = 0\<rparr>"
  let ?t = "ascii ''Page one'' @ [10, 10] @ ascii ''Page two'' @ [10, 10]"
  have "pages_text (fst (?plumber ?f)) = Inr [32, 10, 10]"
    by (simp add: pages_text_def)
  moreover have "strip [32, 10, 10] = []"
    by (simp add: strip_def is_space_def)
  ultimately have primary: "\<forall>t. pages_text (fst (?plumber ?f)) = Inr t \<longrightarrow> strip t = []"
    by simp
  have secondary: "pages_text (fst (?pypdf (?f\<lparr>tell := 0\<rparr>))) = Inr ?t"
    by (simp add: pages_text_def ascii_def)
  have stripped: "strip ?t = ascii ''Page one'' @ [10, 10] @ ascii ''Page two''"
    by (simp add: strip_def ascii_def is_space_def)
  then have nonblank: "strip ?t \<noteq> []" by (simp add: ascii_def)
  from fallback_extraction [of ?plumber ?f ?pypdf, OF primary]
  obtain pre post where
    trace: "snd (extract_pdf_text ?plumber ?pypdf (Some ?f)) =
      pre @ [Seek 0, PdfReader (?f\<lparr>tell := 0\<rparr>)] @ post"
    and result: "\<forall>t. pages_text (fst (?pypdf (?f\<lparr>tell := 0\<rparr>))) = Inr t \<and> strip t \<noteq> [] \<longrightarrow>
       fst (extract_pdf_text ?plumber ?pypdf (Some ?f)) = Some (strip t)"
    by (elim exE conjE) (rule that, assumption+)
  from result secondary nonblank
  have "fst (extract_pdf_text ?plumber ?pypdf (Some ?f)) = Some (strip ?t)" by blast
  with stripped trace show ?thesis by auto
qed

section \<open>Output file name\<close>

text \<open>
  What holds of the artifact: when \<^verbatim>\<open>.pdf\<close> occurs in the uploaded name only as its
  extension, the suggested name is the name without the extension followed by
  \<^verbatim>\<open>_summary.mp3\<close>; and a download button of the pipeline always carries the file
  made by \<open>text_to_audio_file\<close>, under the name \<open>summary_filename\<close> gives, with the
  MIME type \<^verbatim>\<open>audio/mp3\<close>.
\<close>

lemma replace_extension_only:
  assumes "\<forall>i < length stem. \<not> prefix ext (drop i (stem @ ext))" and "ext \<noteq> []"
  shows "replace (stem @ ext) ext [] = stem"
  using assms(1)
proof (induction stem)
  case Nil
  with assms(2) show ?case by (simp add: replace.simps [of ext] replace.simps [of "[]"])
next
  case (Cons c cs)
  from Cons.prems have head: "\<not> prefix ext (c # cs @ ext)" by force
  have "\<forall>i < length cs. \<not> prefix ext (drop i (cs @ ext))"
  proof (intro allI impI)
    fix i assume "i < length cs"
    with Cons.prems have "\<not> prefix ext (drop (Suc i) ((c # cs) @ ext))" by (metis Suc_less_eq length_Cons)
    then show "\<not> prefix ext (drop i (cs @ ext))" by simp
  qed
  then have "replace (cs @ ext) ext [] = cs" by (rule Cons.IH)
  with head assms(2) show ?case by (simp add: replace.simps [of "c # cs @ ext"])
qed

lemma summary_filename_extension_only:
  "\<forall>i < length stem. \<not> prefix (ascii ''.pdf'') (drop i (stem @ ascii ''.pdf'')) \<Longrightarrow>
   summary_filename (stem @ ascii ''.pdf'') = stem @ ascii ''_summary.mp3''"
  by (simp add: summary_filename_def replace_extension_only ascii_def)

lemma extract_with_pypdf2_no_button:
  "extract_with_pypdf2 r f = (x, ev) \<Longrightarrow> DownloadButton a b c d \<notin> set ev"
  by (auto simp: extract_with_pypdf2_def Let_def split: prod.splits sum.splits if_splits)

lemma extract_pdf_text_no_button:
  "extract_pdf_text p r f = (x, ev) \<Longrightarrow> DownloadButton a b c d \<notin> set ev"
  by (auto simp: extract_pdf_text_def Let_def
      split: option.splits sum.splits prod.splits if_splits dest: extract_with_pypdf2_no_button)

lemma generate_summary_no_button:
  "generate_summary self client t n = (x, ev) \<Longrightarrow> DownloadButton a b c d \<notin> set ev"
proof -
  have "DownloadButton a b c d \<notin> set (snd (truncate_pdf_content self t))"
    using truncate_logs_only by blast
  moreover have "DownloadButton a b c d \<notin> set (snd (check_summary msg n))" for msg
    using check_summary_logs_only by blast
  moreover have "DownloadButton a b c d \<notin> set (summary_error e)" for e
    using summary_error_logs_only by blast
  ultimately have "DownloadButton a b c d \<notin> set (snd (generate_summary self client t n))"
    by (auto simp: generate_summary_def make_sync_api_call_def case_prod_beta Let_def
        split: sum.splits)
  then show "generate_summary self client t n = (x, ev) \<Longrightarrow> DownloadButton a b c d \<notin> set ev"
    by simp
qed

lemma estimate_audio_duration_no_button:
  "estimate_audio_duration t n = (x, ev) \<Longrightarrow> DownloadButton a b c d \<notin> set ev"
  by (auto simp: estimate_audio_duration_def Let_def split: if_splits)

lemma validate_text_length_no_button:
  "validate_text_length t n = (x, ev) \<Longrightarrow> DownloadButton a b c d \<notin> set ev"
  by (auto simp: validate_text_length_def Let_def split: if_splits)

lemma generate_sync_no_button:
  "generate_sync self client t = (x, ev) \<Longrightarrow> DownloadButton a b c d \<notin> set ev"
  by (auto simp: generate_sync_def Let_def split: sum.splits audio.splits)

lemma generate_audio_no_button:
  "generate_audio self client t = (x, ev) \<Longrightarrow> DownloadButton a b c d \<notin> set ev"
  unfolding generate_audio_def Let_def
  by (auto split: prod.splits sum.splits
      dest: validate_text_length_no_button estimate_audio_duration_no_button generate_sync_no_button)

lemma text_to_audio_file_no_button:
  "text_to_audio_file self client t filename = (x, ev) \<Longrightarrow> DownloadButton a b c d \<notin> set ev"
  unfolding text_to_audio_file_def create_audio_file_def Let_def
  by (auto split: prod.splits sum.splits dest: generate_audio_no_button)

lemma text_to_audio_file_name:
  "text_to_audio_file self client t filename = (Inr audio_file, ev) \<Longrightarrow> name audio_file = filename"
  unfolding text_to_audio_file_def create_audio_file_def Let_def
  by (auto split: prod.splits sum.splits)

lemma process_pdf_to_audio_download:
  assumes button: "DownloadButton label audio_file file_name mime \<in>
    set (process_pdf_to_audio claude_client messages elevenlabs_client tts pdfplumber_open pdf_reader
      uploaded_file target_minutes)"
  shows "file_name = summary_filename (name uploaded_file) \<and> name audio_file = file_name \<and>
    mime = ascii ''audio/mp3''"
proof -
  obtain extracted ev1 where
    ex: "extract_pdf_text pdfplumber_open pdf_reader (Some uploaded_file) = (extracted, ev1)"
    by (cases "extract_pdf_text pdfplumber_open pdf_reader (Some uploaded_file)")
  define pdf_text where "pdf_text = (case extracted of None \<Rightarrow> [] | Some t \<Rightarrow> t)"
  obtain r3 ev3 where
    gs: "generate_summary claude_client messages pdf_text target_minutes = (r3, ev3)"
    by (cases "generate_summary claude_client messages pdf_text target_minutes")
  note no1 = extract_pdf_text_no_button [OF ex, of label audio_file file_name mime]
  note no3 = generate_summary_no_button [OF gs, of label audio_file file_name mime]
  show ?thesis
  proof (cases "pdf_text = []")
    case True
    with button ex no1 show ?thesis
      by (simp add: process_pdf_to_audio_def Let_def clean_up_def pdf_text_def [symmetric])
  next
    case nonempty: False
    show ?thesis
    proof (cases r3)
      case (Inl e)
      with button ex gs nonempty no1 no3 show ?thesis
        by (simp add: process_pdf_to_audio_def Let_def clean_up_def processing_failed_def
            pdf_text_def [symmetric])
    next
      case (Inr summary)
      obtain r5 ev5 where taf: "text_to_audio_file elevenlabs_client tts summary
          (summary_filename (name uploaded_file)) = (r5, ev5)"
        by (cases "text_to_audio_file elevenlabs_client tts summary
          (summary_filename (name uploaded_file))")
      note no5 = text_to_audio_file_no_button [OF taf, of label audio_file file_name mime]
      show ?thesis
      proof (cases r5)
        case failed: (Inl e)
        with button ex gs nonempty Inr taf no1 no3 no5 show ?thesis
          by (simp add: process_pdf_to_audio_def Let_def clean_up_def processing_failed_def
              pdf_text_def [symmetric])
      next
        case made: (Inr made_file)
        obtain r7 ev7 where ed: "estimate_audio_duration summary 150 = (r7, ev7)"
          by (cases "estimate_audio_duration summary 150")
        note no7 = estimate_audio_duration_no_button [OF ed, of label audio_file file_name mime]
        from taf made have nm: "name made_file = summary_filename (name uploaded_file)"
          by (simp add: text_to_audio_file_name)
        from button ex gs nonempty Inr taf made ed no1 no3 no5 no7
        have "audio_file = made_file \<and> file_name = name made_file \<and> mime = ascii ''audio/mp3''"
          by (cases r7)
            (simp_all add: process_pdf_to_audio_def Let_def clean_up_def processing_failed_def
              pdf_text_def [symmetric])
        with nm show ?thesis by simp
      qed
    qed
  qed
qed

text \<open>
  C8. The suggested file name is meant to be the uploaded name without its \<^verbatim>\<open>.pdf\<close>
  extension, followed by \<^verbatim>\<open>_summary.mp3\<close>, the rest of the name kept. The code removes
  every occurrence of \<^verbatim>\<open>.pdf\<close>: for the upload \<^verbatim>\<open>paper.pdf.v2.pdf\<close> it suggests
  \<^verbatim>\<open>paper.v2_summary.mp3\<close>, not \<^verbatim>\<open>paper.pdf.v2_summary.mp3\<close>.
\<close>

theorem summary_filename_inner_pdf:
  "summary_filename (ascii ''paper.pdf.v2.pdf'') = ascii ''paper.v2_summary.mp3'' \<and>
   summary_filename (ascii ''paper.pdf.v2.pdf'') \<noteq> ascii ''paper.pdf.v2_summary.mp3''"
  by code_simp

end
